theory Spec2Isabelle
  imports Main "HOL-Library.AList"
begin

section \<open>JavaScript strings, values and objects\<close>

text \<open>
  The environment config mapper of \<^verbatim>\<open>packages/config/src/config-base.ts\<close> and
  \<^verbatim>\<open>packages/config/src/settings-base.ts\<close>.

  A string is the list of its UTF-16 code units, and a character of this theory is a
  code unit from U+0000 to U+00FF: the strings modelled are those of ASCII and Latin-1
  characters. \<^verbatim>\<open>String.prototype.toLowerCase\<close> maps such a string unit by unit:
  \<^verbatim>\<open>A-Z\<close> and the letters U+00C0 to U+00DE (the sign U+00D7 apart) move up by 32,
  every other unit is kept. \<^verbatim>\<open>String.prototype.toUpperCase\<close> moves \<^verbatim>\<open>a-z\<close>
  and the letters U+00E0 to U+00FE (the sign U+00F7 apart) down by 32, maps the sharp s
  U+00DF to the two units \<^verbatim>\<open>SS\<close>, and keeps the others; the upper case of the
  micro sign U+00B5 and of U+00FF lies beyond U+00FF, so the upper case of a string
  with one of them is not a string of this theory (\<open>None\<close>).
\<close>

definition toLowerChar :: "char \<Rightarrow> char" where
  "toLowerChar c =
     (let n = (of_char c :: nat)
      in if (65 \<le> n \<and> n \<le> 90) \<or> (192 \<le> n \<and> n \<le> 222 \<and> n \<noteq> 215)
         then char_of (n + 32) else c)"

definition toLowerCase :: "string \<Rightarrow> string" where
  "toLowerCase s = map toLowerChar s"

definition toUpperChar :: "char \<Rightarrow> string option" where
  "toUpperChar c =
     (let n = (of_char c :: nat)
      in if n = 181 \<or> n = 255 then None
         else if n = 223 then Some ''SS''
         else if (97 \<le> n \<and> n \<le> 122) \<or> (224 \<le> n \<and> n \<le> 254 \<and> n \<noteq> 247)
         then Some [char_of (n - 32)]
         else Some [c])"

definition toUpperCase :: "string \<Rightarrow> string option" where
  "toUpperCase s = map_option concat (those (map toUpperChar s))"

definition isAscii :: "string \<Rightarrow> bool" where
  "isAscii s = list_all (\<lambda>c. (of_char c :: nat) < 128) s"

text \<open>\<^verbatim>\<open>s.startsWith(p)\<close> and \<^verbatim>\<open>s.endsWith(p)\<close>.\<close>

definition startsWith :: "string \<Rightarrow> string \<Rightarrow> bool" where
  "startsWith s p = (take (length p) s = p)"

definition endsWith :: "string \<Rightarrow> string \<Rightarrow> bool" where
  "endsWith s p = (length p \<le> length s \<and> drop (length s - length p) s = p)"

text \<open>
  A value of type \<^verbatim>\<open>unknown\<close>. Numbers are carried, never computed with; \<open>Ref\<close> is
  a reference to an object or array.
\<close>

datatype jsval = Undefined | Null | Bool bool | Num int | Str string | Ref nat

text \<open>
  A \<^verbatim>\<open>Record<string, unknown>\<close> is the list of its own enumerable entries in
  insertion order, which is what \<^verbatim>\<open>Object.entries\<close> iterates. The assignment
  \<^verbatim>\<open>obj[key] = val\<close> replaces the value of an existing key in place and appends a
  new key at the end, with one exception: when the key is \<^verbatim>\<open>__proto__\<close> and the
  object has no own property of that name, the assignment goes to the setter inherited
  from \<^verbatim>\<open>Object.prototype\<close>, which creates no property; the own entries stay as
  they are. JavaScript enumerates integer-like keys before the others, so for them the
  order of a list built by assignments is not the order of enumeration; the statements
  below are about the entries and the lookup of a result, never about its order.
\<close>

type_synonym jsobject = "(string \<times> jsval) list"

definition assign :: "jsobject \<Rightarrow> string \<Rightarrow> jsval \<Rightarrow> jsobject" where
  "assign obj key val =
     (if key = ''__proto__'' \<and> key \<notin> fst ` set obj then obj
      else AList.update key val obj)"


text \<open>An object built from \<^verbatim>\<open>{}\<close> by assignments has no own property \<^verbatim>\<open>__proto__\<close>.\<close>

definition noProto :: "jsobject \<Rightarrow> bool" where
  "noProto obj = (''__proto__'' \<notin> fst ` set obj)"

text \<open>
  What a call does: it returns a value, or throws. \<open>NotModelled\<close> marks the calls
  whose JavaScript behaviour this theory does not describe (a regular expression outside
  the fragment below, an upper case beyond U+00FF); nothing is proved about them.
\<close>

datatype ('e, 'a) outcome = Returns 'a | Throws 'e | NotModelled

fun andThen :: "('e, 'a) outcome \<Rightarrow> ('a \<Rightarrow> ('e, 'b) outcome) \<Rightarrow> ('e, 'b) outcome" where
  "andThen (Returns x) f = f x"
| "andThen (Throws e) f = Throws e"
| "andThen NotModelled f = NotModelled"

text \<open>
  What can be thrown: a native error (the \<^verbatim>\<open>SyntaxError\<close> of the \<^verbatim>\<open>RegExp\<close>
  constructor is the only one the component can reach), or the schema's validation
  error, whose content is the schema's own.
\<close>

datatype js_error = SyntaxError

datatype 'e thrown = NativeError js_error | ValidationError 'e

section \<open>Regular expressions: the fragment the separator can reach\<close>

text \<open>
  \<^verbatim>\<open>new RegExp(separator, "g")\<close> reads the separator as a pattern. In the ECMAScript
  pattern grammar every character other than the fourteen syntax characters
  \<^verbatim>\<open>^ $ \ . * + ? ( ) [ ] { } |\<close> is a pattern character that matches itself, and
  \<^verbatim>\<open>.\<close> matches every character but a line terminator. The fragment modelled is the
  patterns made of these two kinds of atoms (the empty pattern included). A pattern
  with an opening parenthesis that can be neither escaped (no backslash), nor inside a
  class (no opening bracket), nor closed (no closing parenthesis) has an unterminated
  group: the constructor throws a \<^verbatim>\<open>SyntaxError\<close>. Every other pattern is outside
  the model.
\<close>

datatype atom = AnyChar | Lit char

type_synonym regexp = "atom list"

definition backslash :: char where
  "backslash = CHR 0x5C"

definition syntaxCharacters :: string where
  "syntaxCharacters = backslash # ''^$.*+?()[]{}|''"

definition isLineTerminator :: "char \<Rightarrow> bool" where
  "isLineTerminator c = (c = CHR 0x0A \<or> c = CHR 0x0D)"

definition parseAtom :: "char \<Rightarrow> atom option" where
  "parseAtom c =
     (if c = CHR ''.'' then Some AnyChar
      else if c \<in> set syntaxCharacters then None
      else Some (Lit c))"

definition unterminatedGroup :: "string \<Rightarrow> bool" where
  "unterminatedGroup pattern =
     (CHR ''('' \<in> set pattern \<and> CHR '')'' \<notin> set pattern \<and>
      backslash \<notin> set pattern \<and> CHR ''['' \<notin> set pattern)"

definition RegExp_new :: "string \<Rightarrow> (js_error, regexp) outcome" where
  "RegExp_new pattern =
     (case those (map parseAtom pattern) of
        Some atoms \<Rightarrow> Returns atoms
      | None \<Rightarrow> if unterminatedGroup pattern then Throws SyntaxError else NotModelled)"

fun atomMatches :: "atom \<Rightarrow> char \<Rightarrow> bool" where
  "atomMatches AnyChar c = (\<not> isLineTerminator c)"
| "atomMatches (Lit d) c = (c = d)"

fun matchesAt :: "regexp \<Rightarrow> string \<Rightarrow> bool" where
  "matchesAt [] s = True"
| "matchesAt (a # as) [] = False"
| "matchesAt (a # as) (c # cs) = (atomMatches a c \<and> matchesAt as cs)"

text \<open>
  \<^verbatim>\<open>s.replace(re, rep)\<close> for a global \<^verbatim>\<open>re\<close> of the fragment and a replacement
  without \<^verbatim>\<open>$\<close>: matches are taken leftmost and do not overlap. \<open>skip\<close> counts the
  characters of the current match that are still to be consumed. The empty pattern
  matches the empty string at every index, the end included.
\<close>

fun replaceScan :: "regexp \<Rightarrow> string \<Rightarrow> nat \<Rightarrow> string \<Rightarrow> string" where
  "replaceScan re rep skip [] = []"
| "replaceScan re rep (Suc skip) (c # cs) = replaceScan re rep skip cs"
| "replaceScan re rep 0 (c # cs) =
     (if matchesAt re (c # cs) then rep @ replaceScan re rep (length re - 1) cs
      else c # replaceScan re rep 0 cs)"

definition replaceGlobal :: "string \<Rightarrow> regexp \<Rightarrow> string \<Rightarrow> string" where
  "replaceGlobal s re rep =
     (if re = [] then concat (map (\<lambda>c. rep @ [c]) s) @ rep
      else replaceScan re rep 0 s)"

section \<open>config-base.ts\<close>

definition SENSITIVE_POSTFIXES :: "string list" where
  "SENSITIVE_POSTFIXES = [''password'', ''pw'', ''key'', ''secret'', ''credentials'']"

definition isSensitive :: "string \<Rightarrow> bool" where
  "isSensitive key =
     (let keyLower = toLowerCase key
      in list_ex (\<lambda>postfix. endsWith keyLower postfix) SENSITIVE_POSTFIXES)"

text \<open>\<^verbatim>\<open>value.slice(0, 2)\<close> is \<open>take 2\<close>; \<^verbatim>\<open>value.slice(-2)\<close> is the last two characters.\<close>

definition maskValue :: "jsval \<Rightarrow> string" where
  "maskValue val =
     (if val = Null \<or> val = Undefined \<or> val = Str [] then ''<not set>''
      else case val of
        Str s \<Rightarrow>
          if length s \<le> 4 then ''****''
          else take 2 s @ ''...'' @ drop (length s - 2) s
      | _ \<Rightarrow> ''****'')"

record FromEnvOptions =
  prefix :: "string option"
  separator :: "string option"

definition toFieldName :: "string \<Rightarrow> string \<Rightarrow> (js_error, string) outcome" where
  "toFieldName envKey sep =
     (if sep = ''_'' then Returns (toLowerCase envKey)
      else andThen (RegExp_new sep)
             (\<lambda>re. Returns (toLowerCase (replaceGlobal envKey re ''_''))))"

text \<open>
  The process environment is read as the list of the entries of
  \<^verbatim>\<open>Object.entries(process.env)\<close>, in its iteration order; a value is a string or
  \<^verbatim>\<open>undefined\<close> (\<open>None\<close>). The loop of \<^verbatim>\<open>collectEnvValues\<close> takes the entries
  left to iterate and the object built so far.
\<close>

type_synonym environment = "(string \<times> string option) list"

fun collectLoop ::
  "string \<Rightarrow> string \<Rightarrow> environment \<Rightarrow> jsobject \<Rightarrow> (js_error, jsobject) outcome" where
  "collectLoop prefixUpper sep [] envValues = Returns envValues"
| "collectLoop prefixUpper sep ((envKey, envValue) # rest) envValues =
     (case envValue of
        None \<Rightarrow> collectLoop prefixUpper sep rest envValues
      | Some v \<Rightarrow>
          if prefixUpper \<noteq> [] \<and> startsWith envKey prefixUpper then
            andThen (toFieldName (drop (length prefixUpper) envKey) sep)
              (\<lambda>field. collectLoop prefixUpper sep rest (assign envValues field (Str v)))
          else if prefixUpper = [] then
            andThen (toFieldName envKey sep)
              (\<lambda>field. collectLoop prefixUpper sep rest (assign envValues field (Str v)))
          else collectLoop prefixUpper sep rest envValues)"

definition collectEnvValues ::
  "string \<Rightarrow> string \<Rightarrow> environment \<Rightarrow> (js_error, jsobject) outcome" where
  "collectEnvValues pre sep env =
     (case toUpperCase pre of
        None \<Rightarrow> NotModelled
      | Some prefixUpper \<Rightarrow> collectLoop prefixUpper sep env [])"

text \<open>
  A Zod schema is used through two members only: \<^verbatim>\<open>schema.parse\<close>, which returns
  the typed result or throws the schema's validation error, and, for an object schema,
  \<^verbatim>\<open>schema.shape\<close>, the object of the declared fields.
\<close>

record ('e, 'a) ZodTypeAny =
  parse :: "jsobject \<Rightarrow> 'e + 'a"

record ('e, 'a, 'f) ZodObject = "('e, 'a) ZodTypeAny" +
  shape :: "(string \<times> 'f) list"

definition fromEnv ::
  "('e, 'a, 'z) ZodTypeAny_scheme \<Rightarrow> FromEnvOptions option \<Rightarrow> environment
     \<Rightarrow> ('e thrown, 'a) outcome" where
  "fromEnv schema options env =
     (let opts = (case options of None \<Rightarrow> \<lparr>prefix = None, separator = None\<rparr> | Some given \<Rightarrow> given);
          pre = (case prefix opts of None \<Rightarrow> [] | Some p \<Rightarrow> p);
          sep = (case separator opts of None \<Rightarrow> ''_'' | Some s \<Rightarrow> s)
      in case collectEnvValues pre sep env of
           Returns envValues \<Rightarrow>
             (case parse schema envValues of
                Inl err \<Rightarrow> Throws (ValidationError err)
              | Inr parsed \<Rightarrow> Returns parsed)
         | Throws err \<Rightarrow> Throws (NativeError err)
         | NotModelled \<Rightarrow> NotModelled)"

fun extrasLoop :: "string set \<Rightarrow> jsobject \<Rightarrow> jsobject \<Rightarrow> jsobject" where
  "extrasLoop schemaKeys [] extras = extras"
| "extrasLoop schemaKeys ((key, val) # rest) extras =
     extrasLoop schemaKeys rest (if key \<in> schemaKeys then extras else assign extras key val)"

definition getExtraConfigs :: "jsobject \<Rightarrow> ('e, 'a, 'f, 'z) ZodObject_scheme \<Rightarrow> jsobject" where
  "getExtraConfigs config schema =
     (let schemaKeys = set (map fst (shape schema))
      in extrasLoop schemaKeys config [])"

fun printableLoop :: "jsobject \<Rightarrow> jsobject \<Rightarrow> jsobject" where
  "printableLoop [] result = result"
| "printableLoop ((key, val) # rest) result =
     printableLoop rest
       (assign result key (if isSensitive key then Str (maskValue val) else val))"

definition getPrintableConfig :: "jsobject \<Rightarrow> jsobject" where
  "getPrintableConfig config = printableLoop config []"

section \<open>The operations on a store\<close>

text \<open>
  For the frame properties the objects live in a store: an address is an index into
  the list of the objects allocated so far, and the process environment is a component
  of its own. The object literal \<^verbatim>\<open>{}\<close> allocates the next address;
  \<^verbatim>\<open>obj[key] = val\<close> writes the object at one address; \<^verbatim>\<open>Object.entries(obj)\<close>
  reads the entries the object has when the loop starts. The functions below are the
  same loops as above, with each allocation, read and write made explicit. A schema is
  an object of the schema library: its \<^verbatim>\<open>shape\<close> is an object of the store, and its
  \<^verbatim>\<open>parse\<close> is code of the library and of the schema's author (transforms and
  refinements are arbitrary functions), which is given the candidate object and may
  read and write the store; it returns the address of its result or throws.
\<close>

record world =
  heap :: "jsobject list"
  process_env :: environment

record 'e ZodTypeAny_st =
  parse_st :: "nat \<Rightarrow> world \<Rightarrow> ('e + nat) \<times> world"

record 'e ZodObject_st = "'e ZodTypeAny_st" +
  shape_st :: nat

definition newObject :: "jsobject \<Rightarrow> world \<Rightarrow> nat \<times> world" where
  "newObject content w = (length (heap w), w\<lparr>heap := heap w @ [content]\<rparr>)"

definition setProperty :: "nat \<Rightarrow> string \<Rightarrow> jsval \<Rightarrow> world \<Rightarrow> world" where
  "setProperty a key val w = w\<lparr>heap := (heap w)[a := assign (heap w ! a) key val]\<rparr>"

definition entriesOf :: "nat \<Rightarrow> world \<Rightarrow> jsobject" where
  "entriesOf a w = heap w ! a"

fun collectLoop_st ::
  "string \<Rightarrow> string \<Rightarrow> environment \<Rightarrow> nat \<Rightarrow> world \<Rightarrow> (js_error, nat) outcome \<times> world" where
  "collectLoop_st prefixUpper sep [] envValues w = (Returns envValues, w)"
| "collectLoop_st prefixUpper sep ((envKey, envValue) # rest) envValues w =
     (case envValue of
        None \<Rightarrow> collectLoop_st prefixUpper sep rest envValues w
      | Some v \<Rightarrow>
          if prefixUpper \<noteq> [] \<and> startsWith envKey prefixUpper then
            (case toFieldName (drop (length prefixUpper) envKey) sep of
               Returns field \<Rightarrow>
                 collectLoop_st prefixUpper sep rest envValues (setProperty envValues field (Str v) w)
             | Throws err \<Rightarrow> (Throws err, w)
             | NotModelled \<Rightarrow> (NotModelled, w))
          else if prefixUpper = [] then
            (case toFieldName envKey sep of
               Returns field \<Rightarrow>
                 collectLoop_st prefixUpper sep rest envValues (setProperty envValues field (Str v) w)
             | Throws err \<Rightarrow> (Throws err, w)
             | NotModelled \<Rightarrow> (NotModelled, w))
          else collectLoop_st prefixUpper sep rest envValues w)"

definition collectEnvValues_st ::
  "string \<Rightarrow> string \<Rightarrow> world \<Rightarrow> (js_error, nat) outcome \<times> world" where
  "collectEnvValues_st pre sep w =
     (case toUpperCase pre of
        None \<Rightarrow> (NotModelled, w)
      | Some prefixUpper \<Rightarrow>
          (let (envValues, w1) = newObject [] w
           in collectLoop_st prefixUpper sep (process_env w1) envValues w1))"

definition fromEnv_st ::
  "('e, 'z) ZodTypeAny_st_scheme \<Rightarrow> FromEnvOptions option \<Rightarrow> world
     \<Rightarrow> ('e thrown, nat) outcome \<times> world" where
  "fromEnv_st schema options w =
     (let opts = (case options of None \<Rightarrow> \<lparr>prefix = None, separator = None\<rparr> | Some given \<Rightarrow> given);
          pre = (case prefix opts of None \<Rightarrow> [] | Some p \<Rightarrow> p);
          sep = (case separator opts of None \<Rightarrow> ''_'' | Some s \<Rightarrow> s)
      in case collectEnvValues_st pre sep w of
           (Returns envValues, w1) \<Rightarrow>
             (case parse_st schema envValues w1 of
                (Inl err, w2) \<Rightarrow> (Throws (ValidationError err), w2)
              | (Inr parsed, w2) \<Rightarrow> (Returns parsed, w2))
         | (Throws err, w1) \<Rightarrow> (Throws (NativeError err), w1)
         | (NotModelled, w1) \<Rightarrow> (NotModelled, w1))"

fun extrasLoop_st :: "string set \<Rightarrow> jsobject \<Rightarrow> nat \<Rightarrow> world \<Rightarrow> world" where
  "extrasLoop_st schemaKeys [] extras w = w"
| "extrasLoop_st schemaKeys ((key, val) # rest) extras w =
     extrasLoop_st schemaKeys rest extras
       (if key \<in> schemaKeys then w else setProperty extras key val w)"

definition getExtraConfigs_st ::
  "nat \<Rightarrow> ('e, 'z) ZodObject_st_scheme \<Rightarrow> world \<Rightarrow> nat \<times> world" where
  "getExtraConfigs_st config schema w =
     (let schemaKeys = set (map fst (entriesOf (shape_st schema) w));
          (extras, w1) = newObject [] w
      in (extras, extrasLoop_st schemaKeys (entriesOf config w1) extras w1))"

fun printableLoop_st :: "jsobject \<Rightarrow> nat \<Rightarrow> world \<Rightarrow> world" where
  "printableLoop_st [] result w = w"
| "printableLoop_st ((key, val) # rest) result w =
     printableLoop_st rest result
       (setProperty result key (if isSensitive key then Str (maskValue val) else val) w)"

definition getPrintableConfig_st :: "nat \<Rightarrow> world \<Rightarrow> nat \<times> world" where
  "getPrintableConfig_st config w =
     (let (result, w1) = newObject [] w
      in (result, printableLoop_st (entriesOf config w1) result w1))"

text \<open>
  \<open>unchanged w w'\<close>: the environment is the same, and every object of \<open>w\<close> is in \<open>w'\<close>
  at its address with its content.
\<close>

definition unchanged :: "world \<Rightarrow> world \<Rightarrow> bool" where
  "unchanged w w' =
     (process_env w' = process_env w \<and> take (length (heap w)) (heap w') = heap w)"

section \<open>settings-base.ts\<close>

record SettingsOptions =
  envFile_opt :: "string option"
  caseSensitive_opt :: "bool option"

record 'a Settings =
  config :: 'a
  envFile :: string
  caseSensitive :: bool

definition createSettings ::
  "('e, 'a, 'z) ZodTypeAny_scheme \<Rightarrow> SettingsOptions option \<Rightarrow> environment
     \<Rightarrow> ('e thrown, 'a Settings) outcome" where
  "createSettings schema options env =
     (let opts = (case options of None \<Rightarrow> \<lparr>envFile_opt = None, caseSensitive_opt = None\<rparr>
                  | Some given \<Rightarrow> given);
          file = (case envFile_opt opts of None \<Rightarrow> ''.env'' | Some f \<Rightarrow> f);
          sensitive = (case caseSensitive_opt opts of None \<Rightarrow> False | Some b \<Rightarrow> b)
      in andThen (fromEnv schema None env)
           (\<lambda>parsed. Returns \<lparr>config = parsed, envFile = file, caseSensitive = sensitive\<rparr>))"

definition loadConfig ::
  "('e, 'a, 'z) ZodTypeAny_scheme \<Rightarrow> FromEnvOptions option \<Rightarrow> environment
     \<Rightarrow> ('e thrown, 'a) outcome" where
  "loadConfig schema options env =
     (let opts = (case options of None \<Rightarrow> \<lparr>prefix = None, separator = None\<rparr> | Some given \<Rightarrow> given)
      in fromEnv schema (Some opts) env)"

section \<open>The specification's wording\<close>

text \<open>
  A name starts with a prefix, matched case-insensitively: both are compared in
  lower case.
\<close>

definition ciStartsWith :: "string \<Rightarrow> string \<Rightarrow> bool" where
  "ciStartsWith name p = startsWith (toLowerCase name) (toLowerCase p)"

text \<open>
  Field-name derivation as the specification words it: every occurrence of the
  separator, taken as a literal substring, becomes an underscore, and the string is
  lower-cased. Occurrences are taken leftmost and do not overlap; an empty separator
  has no occurrence.
\<close>

function replaceLiteral :: "string \<Rightarrow> string \<Rightarrow> string \<Rightarrow> string" where
  "replaceLiteral s sep rep =
     (if s = [] \<or> sep = [] then s
      else if startsWith s sep then rep @ replaceLiteral (drop (length sep) s) sep rep
      else hd s # replaceLiteral (tl s) sep rep)"
  by pat_completeness auto
termination
  by (relation "measure (\<lambda>(s, sep, rep). length s)") auto

definition toFieldName_spec :: "string \<Rightarrow> string \<Rightarrow> string" where
  "toFieldName_spec s sep =
     (if sep = ''_'' then toLowerCase s else toLowerCase (replaceLiteral s sep ''_''))"

section \<open>Evaluation and basic facts\<close>

declare replaceLiteral.simps [simp del]

lemmas js_eval = toUpperCase_def toUpperChar_def toLowerCase_def toLowerChar_def char_of_def bit_0
  startsWith_def endsWith_def

text \<open>Assignment.\<close>


lemma noProto_Nil: "noProto []"
  by (simp add: noProto_def)

lemma noProto_assign: "noProto obj \<Longrightarrow> noProto (assign obj k v)"
  by (auto simp: noProto_def assign_def dom_update)

lemma keys_assign:
  "noProto obj \<Longrightarrow>
   fst ` set (assign obj k v) = (if k = ''__proto__'' then fst ` set obj else insert k (fst ` set obj))"
  by (simp add: noProto_def assign_def dom_update)





lemma andThen_Returns:
  "andThen x f = Returns y \<longleftrightarrow> (\<exists>a. x = Returns a \<and> f a = Returns y)"
  by (cases x) auto

text \<open>Case mappings.\<close>

lemma toUpperChar_ascii:
  "(of_char c :: nat) < 128 \<Longrightarrow> \<exists>d. toUpperChar c = Some [d] \<and> toLowerChar d = toLowerChar c"
  by (auto simp add: toUpperChar_def toLowerChar_def Let_def)

lemma toUpperCase_ascii:
  "isAscii s \<Longrightarrow>
   \<exists>u. toUpperCase s = Some u \<and> length u = length s \<and> toLowerCase u = toLowerCase s"
proof (induction s)
  case Nil
  then show ?case by (simp add: toUpperCase_def toLowerCase_def)
next
  case (Cons c s)
  then have c: "(of_char c :: nat) < 128" and s: "isAscii s" by (simp_all add: isAscii_def)
  from toUpperChar_ascii [OF c] obtain d where
    d: "toUpperChar c = Some [d]" "toLowerChar d = toLowerChar c" by blast
  from Cons.IH [OF s] obtain u where
    u: "toUpperCase s = Some u" "length u = length s" "toLowerCase u = toLowerCase s" by blast
  from u(1) obtain us where us: "those (map toUpperChar s) = Some us" "u = concat us"
    by (auto simp: toUpperCase_def)
  have "toUpperCase (c # s) = Some (d # u)"
    using d(1) us by (simp add: toUpperCase_def)
  with d(2) u show ?case by (simp add: toLowerCase_def)
qed

lemma startsWith_upper_ci:
  assumes "isAscii p" and "toUpperCase p = Some pu" and "startsWith name pu"
  shows "ciStartsWith name p"
proof -
  from toUpperCase_ascii [OF assms(1)] assms(2) have
    len: "length pu = length p" and low: "toLowerCase pu = toLowerCase p" by auto
  from assms(3) have "take (length p) name = pu"
    by (simp add: startsWith_def len)
  then have "toLowerCase (take (length p) name) = toLowerCase p"
    by (simp add: low)
  then show ?thesis
    by (simp add: ciStartsWith_def startsWith_def toLowerCase_def take_map)
qed

lemma toUpperCase_sharp_s: "toUpperCase [CHR 0xDF, CHR ''_''] = Some ''SS_''"
  by (simp add: js_eval)
lemma toUpperCase_app: "toUpperCase ''app_'' = Some ''APP_''"
  by (simp add: js_eval)
lemma toLowerCase_latin1: "toLowerCase [CHR ''C'', CHR 0xC9, CHR 0xD7, CHR 0xDE] = [CHR ''c'', CHR 0xE9, CHR 0xD7, CHR 0xFE]"
  by (simp add: js_eval)
lemma toUpperCase_latin1: "toUpperCase [CHR 0xE9, CHR 0xF7, CHR 0xFE, CHR 0xAA] = Some [CHR 0xC9, CHR 0xF7, CHR 0xDE, CHR 0xAA]"
  by (simp add: js_eval)
lemma toUpperCase_micro: "toUpperCase [CHR 0xB5] = None"
  by (simp add: js_eval)

lemma collectLoop_defined:
  "collectLoop pu sep ((name, Some v) # rest) acc =
     (if startsWith name pu then
        andThen (toFieldName (drop (length pu) name) sep)
          (\<lambda>field. collectLoop pu sep rest (assign acc field (Str v)))
      else collectLoop pu sep rest acc)"
  by (cases "pu = []") (simp_all add: startsWith_def)


lemma collectLoop_keys:
  "collectLoop pu sep env acc = Returns m \<Longrightarrow> noProto acc \<Longrightarrow>
   fst ` set m = fst ` set acc \<union>
     {f. \<exists>name v. (name, Some v) \<in> set env \<and> startsWith name pu \<and>
          toFieldName (drop (length pu) name) sep = Returns f \<and> f \<noteq> ''__proto__''}"
proof (induction env arbitrary: acc)
  case Nil
  then show ?case by simp
next
  case (Cons e env)
  obtain name val where e: "e = (name, val)" by (cases e)
  show ?case
  proof (cases val)
    case None
    with Cons e show ?thesis by auto
  next
    case (Some v)
    show ?thesis
    proof (cases "startsWith name pu")
      case False
      with Cons.prems e Some have "collectLoop pu sep env acc = Returns m"
        by (simp only: collectLoop_defined if_False)
      from Cons.IH [OF this Cons.prems(2)] False e Some show ?thesis by auto
    next
      case True
      with Cons.prems e Some obtain field where
        f: "toFieldName (drop (length pu) name) sep = Returns field" and
        r: "collectLoop pu sep env (assign acc field (Str v)) = Returns m"
        by (auto simp only: collectLoop_defined if_True andThen_Returns)
      from Cons.IH [OF r noProto_assign [OF Cons.prems(2)]] f True e Some show ?thesis
        by (auto simp: keys_assign [OF Cons.prems(2)] split: if_splits)
    qed
  qed
qed




lemma collectLoop_filter:
  "collectLoop pu sep (filter (\<lambda>(name, v). v \<noteq> None \<and> startsWith name pu) env) acc =
   collectLoop pu sep env acc"
proof (induction env arbitrary: acc)
  case Nil
  then show ?case by simp
next
  case (Cons e env)
  obtain name val where e: "e = (name, val)" by (cases e)
  show ?case
  proof (cases val)
    case None
    with Cons e show ?thesis by simp
  next
    case (Some v)
    with Cons e show ?thesis
      by (cases "toFieldName (drop (length pu) name) sep")
         (simp_all del: collectLoop.simps add: collectLoop_defined)
  qed
qed

lemma collectLoop_returns:
  assumes "\<And>s. \<exists>field. toFieldName s sep = Returns field"
  shows "\<exists>m. collectLoop pu sep env acc = Returns m"
proof (induction env arbitrary: acc)
  case Nil
  then show ?case by simp
next
  case (Cons e env)
  obtain name val where e: "e = (name, val)" by (cases e)
  show ?case
  proof (cases val)
    case None
    with Cons e show ?thesis by simp
  next
    case (Some v)
    from assms obtain field where "toFieldName (drop (length pu) name) sep = Returns field"
      by blast
    with Cons e Some show ?thesis
      by (simp only: collectLoop_defined) simp
  qed
qed








lemma last_two: "2 \<le> length s \<Longrightarrow> drop (length s - 2) s = [s ! (length s - 2), s ! (length s - 1)]"
proof -
  assume a: "2 \<le> length s"
  have l: "length (drop (length s - 2) s) = 2" using a by simp
  then obtain x y where xy: "drop (length s - 2) s = [x, y]"
    by (metis (no_types, opaque_lifting) One_nat_def Suc_1 length_0_conv length_Suc_conv)
  have "x = drop (length s - 2) s ! 0" "y = drop (length s - 2) s ! 1" using xy by simp_all
  moreover have "Suc (length s - 2) = length s - 1" using a by arith
  ultimately have "x = s ! (length s - 2)" "y = s ! (length s - 1)" using a by simp_all
  with xy show ?thesis by simp
qed

lemma first_two: "2 \<le> length s \<Longrightarrow> take 2 s = [s ! 0, s ! 1]"
  by (cases s; cases "tl s") auto

lemma maskValue_Str:
  "maskValue (Str s) =
     (if s = [] then ''<not set>''
      else if length s \<le> 4 then ''****''
      else [s ! 0, s ! 1] @ ''...'' @ [s ! (length s - 2), s ! (length s - 1)])"
  by (simp add: maskValue_def first_two last_two)


lemma isSensitive_not_proto: "\<not> isSensitive ''__proto__''"
  by (simp add: isSensitive_def SENSITIVE_POSTFIXES_def js_eval)

lemma parseAtom_literal:
  "set sep \<inter> set syntaxCharacters = {} \<Longrightarrow> those (map parseAtom sep) = Some (map Lit sep)"
proof (induction sep)
  case Nil
  then show ?case by simp
next
  case (Cons c sep)
  then have c: "c \<notin> set syntaxCharacters" and rest: "set sep \<inter> set syntaxCharacters = {}"
    by auto
  have "CHR ''.'' \<in> set syntaxCharacters" by (simp add: syntaxCharacters_def)
  with c have "c \<noteq> CHR ''.''" by blast
  with c have "parseAtom c = Some (Lit c)" by (simp add: parseAtom_def)
  with Cons.IH [OF rest] show ?case by simp
qed

lemma matchesAt_literal: "matchesAt (map Lit p) s \<longleftrightarrow> startsWith s p"
proof (induction p arbitrary: s)
  case Nil
  then show ?case by (simp add: startsWith_def)
next
  case (Cons c p)
  then show ?case by (cases s) (auto simp: startsWith_def)
qed

lemma replaceScan_skip: "replaceScan re rep k s = replaceScan re rep 0 (drop k s)"
proof (induction s arbitrary: k)
  case Nil
  then show ?case by simp
next
  case (Cons c s)
  then show ?case by (cases k) simp_all
qed

lemma replaceScan_literal:
  "sep \<noteq> [] \<Longrightarrow> replaceScan (map Lit sep) rep 0 s = replaceLiteral s sep rep"
proof (induction s sep rep rule: replaceLiteral.induct)
  case (1 s sep rep)
  show ?case
  proof (cases s)
    case Nil
    then show ?thesis by (simp add: replaceLiteral.simps)
  next
    case (Cons c cs)
    show ?thesis
    proof (cases "startsWith s sep")
      case True
      have d: "drop (length sep) s = drop (length sep - 1) cs"
        using Cons "1.prems" by (cases sep) simp_all
      have ne: "s \<noteq> []" using Cons by simp
      have ih: "replaceScan (map Lit sep) rep 0 (drop (length sep) s) =
                  replaceLiteral (drop (length sep) s) sep rep"
        using "1.IH"(1) ne True "1.prems" by simp
      have "replaceScan (map Lit sep) rep 0 s =
              rep @ replaceScan (map Lit sep) rep (length sep - 1) cs"
        using True unfolding Cons by (simp add: matchesAt_literal)
      also have "\<dots> = rep @ replaceScan (map Lit sep) rep 0 (drop (length sep) s)"
        unfolding d by (subst replaceScan_skip) (rule refl)
      also have "\<dots> = rep @ replaceLiteral (drop (length sep) s) sep rep"
        by (simp only: ih)
      also have "\<dots> = replaceLiteral s sep rep"
        using ne True "1.prems" by (subst (2) replaceLiteral.simps) simp
      finally show ?thesis .
    next
      case False
      have ne: "s \<noteq> []" using Cons by simp
      have ih: "replaceScan (map Lit sep) rep 0 (tl s) = replaceLiteral (tl s) sep rep"
        using "1.IH"(2) ne False "1.prems" by simp
      have "replaceScan (map Lit sep) rep 0 s = c # replaceScan (map Lit sep) rep 0 cs"
        using False unfolding Cons by (simp add: matchesAt_literal)
      also have "\<dots> = hd s # replaceLiteral (tl s) sep rep"
        using ih unfolding Cons by simp
      also have "\<dots> = replaceLiteral s sep rep"
        using ne False "1.prems" by (subst (2) replaceLiteral.simps) simp
      finally show ?thesis .
    qed
  qed
qed

lemma toFieldName_literal:
  assumes "sep \<noteq> []" and "set sep \<inter> set syntaxCharacters = {}"
  shows "toFieldName s sep = Returns (toFieldName_spec s sep)"
  using assms
  by (simp add: toFieldName_def toFieldName_spec_def RegExp_new_def parseAtom_literal
      replaceGlobal_def replaceScan_literal)

section \<open>The store operations compute the pure ones\<close>

lemma setProperty_simps:
  "heap (setProperty a key val w) = (heap w)[a := assign (heap w ! a) key val]"
  "process_env (setProperty a key val w) = process_env w"
  by (simp_all add: setProperty_def)

lemma printableLoop_st_heap:
  "r < length (heap w) \<Longrightarrow>
   printableLoop_st entries r w = w\<lparr>heap := (heap w)[r := printableLoop entries (heap w ! r)]\<rparr>"
proof (induction entries arbitrary: w)
  case Nil
  then show ?case by simp
next
  case (Cons e entries)
  obtain key val where e: "e = (key, val)" by (cases e)
  let ?w = "setProperty r key (if isSensitive key then Str (maskValue val) else val) w"
  have "r < length (heap ?w)" using Cons.prems by (simp add: setProperty_simps)
  from Cons.IH [OF this] Cons.prems e show ?case
    by (simp add: setProperty_def)
qed

lemma getPrintableConfig_st_eq:
  assumes "cfg < length (heap w)"
  shows "getPrintableConfig_st cfg w =
    (length (heap w), w\<lparr>heap := heap w @ [getPrintableConfig (heap w ! cfg)]\<rparr>)"
  using assms
  by (simp add: getPrintableConfig_st_def newObject_def entriesOf_def printableLoop_st_heap
      getPrintableConfig_def nth_append)

lemma extrasLoop_st_heap:
  "r < length (heap w) \<Longrightarrow>
   extrasLoop_st ks entries r w = w\<lparr>heap := (heap w)[r := extrasLoop ks entries (heap w ! r)]\<rparr>"
proof (induction entries arbitrary: w)
  case Nil
  then show ?case by simp
next
  case (Cons e entries)
  obtain key val where e: "e = (key, val)" by (cases e)
  show ?case
  proof (cases "key \<in> ks")
    case True
    with Cons e show ?thesis by simp
  next
    case False
    have "r < length (heap (setProperty r key val w))"
      using Cons.prems by (simp add: setProperty_simps)
    from Cons.IH [OF this] Cons.prems e False show ?thesis
      by (simp add: setProperty_def)
  qed
qed

lemma getExtraConfigs_st_eq:
  assumes "cfg < length (heap w)" and "shape_st schema < length (heap w)"
  shows "getExtraConfigs_st cfg schema w =
    (length (heap w),
     w\<lparr>heap := heap w @
        [getExtraConfigs (heap w ! cfg) \<lparr>parse = p, shape = heap w ! shape_st schema\<rparr>]\<rparr>)"
  using assms
  by (simp add: getExtraConfigs_st_def newObject_def entriesOf_def extrasLoop_st_heap
      getExtraConfigs_def nth_append)

lemma collectLoop_st_heap:
  "r < length (heap w) \<Longrightarrow>
   \<exists>obj. collectLoop_st pu sep env r w =
      (andThen (collectLoop pu sep env (heap w ! r)) (\<lambda>m. Returns r),
       w\<lparr>heap := (heap w)[r := obj]\<rparr>) \<and>
      (\<forall>m. collectLoop pu sep env (heap w ! r) = Returns m \<longrightarrow> obj = m)"
proof (induction env arbitrary: w)
  case Nil
  then show ?case by (auto intro!: exI [of _ "heap w ! r"])
next
  case (Cons e env)
  obtain name val where e: "e = (name, val)" by (cases e)
  show ?case
  proof (cases val)
    case None
    with Cons e show ?thesis by simp
  next
    case (Some v)
    show ?thesis
    proof (cases "startsWith name pu")
      case False
      with Cons e Some show ?thesis by (cases "pu = []") (simp_all add: startsWith_def)
    next
      case True
      show ?thesis
      proof (cases "toFieldName (drop (length pu) name) sep")
        case (Returns field)
        let ?w = "setProperty r field (Str v) w"
        have "r < length (heap ?w)" using Cons.prems by (simp add: setProperty_simps)
        from Cons.IH [OF this] obtain obj where
          "collectLoop_st pu sep env r ?w =
            (andThen (collectLoop pu sep env (heap ?w ! r)) (\<lambda>m. Returns r),
             ?w\<lparr>heap := (heap ?w)[r := obj]\<rparr>) \<and>
           (\<forall>m. collectLoop pu sep env (heap ?w ! r) = Returns m \<longrightarrow> obj = m)"
          by blast
        with Cons.prems e Some True Returns show ?thesis
          by (cases "pu = []") (auto simp: setProperty_def intro!: exI [of _ obj])
      next
        case (Throws err)
        with Cons.prems e Some True show ?thesis
          by (cases "pu = []") (auto intro!: exI [of _ "heap w ! r"])
      next
        case NotModelled
        with Cons.prems e Some True show ?thesis
          by (cases "pu = []") (auto intro!: exI [of _ "heap w ! r"])
      qed
    qed
  qed
qed

lemma collectEnvValues_st_sim:
  "\<exists>objs. collectEnvValues_st pre sep w =
      (andThen (collectEnvValues pre sep (process_env w)) (\<lambda>m. Returns (length (heap w))),
       w\<lparr>heap := heap w @ objs\<rparr>) \<and>
      (\<forall>m. collectEnvValues pre sep (process_env w) = Returns m \<longrightarrow> objs = [m])"
proof (cases "toUpperCase pre")
  case None
  then show ?thesis
    by (intro exI [of _ "[]"]) (simp add: collectEnvValues_st_def collectEnvValues_def)
next
  case (Some pu)
  let ?w = "w\<lparr>heap := heap w @ [[]]\<rparr>"
  have "length (heap w) < length (heap ?w)" by simp
  from collectLoop_st_heap [OF this, of pu sep "process_env w"] obtain obj where
    "collectLoop_st pu sep (process_env w) (length (heap w)) ?w =
      (andThen (collectLoop pu sep (process_env w) (heap ?w ! length (heap w)))
         (\<lambda>m. Returns (length (heap w))),
       ?w\<lparr>heap := (heap ?w)[length (heap w) := obj]\<rparr>) \<and>
     (\<forall>m. collectLoop pu sep (process_env w) (heap ?w ! length (heap w)) = Returns m \<longrightarrow> obj = m)"
    by auto
  with Some show ?thesis
    by (intro exI [of _ "[obj]"])
       (simp add: collectEnvValues_st_def collectEnvValues_def newObject_def)
qed

lemma unchanged_append: "unchanged w (w\<lparr>heap := heap w @ objs\<rparr>)"
  by (simp add: unchanged_def)

lemma unchanged_length: "unchanged w w' \<Longrightarrow> length (heap w) \<le> length (heap w')"
proof -
  assume "unchanged w w'"
  then have "length (take (length (heap w)) (heap w')) = length (heap w)"
    by (simp only: unchanged_def)
  then show ?thesis by simp
qed

lemma unchanged_trans: "unchanged w w1 \<Longrightarrow> unchanged w1 w2 \<Longrightarrow> unchanged w w2"
proof -
  assume a: "unchanged w w1" and b: "unchanged w1 w2"
  have l: "length (heap w) \<le> length (heap w1)" using a by (rule unchanged_length)
  then have m: "min (length (heap w)) (length (heap w1)) = length (heap w)" by arith
  have b': "take (length (heap w1)) (heap w2) = heap w1" using b by (simp only: unchanged_def)
  have a': "take (length (heap w)) (heap w1) = heap w" using a by (simp only: unchanged_def)
  have "take (length (heap w)) (heap w2) =
        take (length (heap w)) (take (length (heap w1)) (heap w2))"
    by (simp only: take_take m)
  also have "\<dots> = heap w" by (simp only: b' a')
  finally have h: "take (length (heap w)) (heap w2) = heap w" .
  have e: "process_env w2 = process_env w" using a b by (simp add: unchanged_def)
  from e h show ?thesis by (simp only: unchanged_def simp_thms)
qed

lemma unchanged_nth: "unchanged w w' \<Longrightarrow> a < length (heap w) \<Longrightarrow> heap w' ! a = heap w ! a"
proof -
  assume u: "unchanged w w'" and a: "a < length (heap w)"
  have "take (length (heap w)) (heap w') ! a = heap w' ! a" using a by (rule nth_take)
  moreover have "take (length (heap w)) (heap w') = heap w" using u by (simp only: unchanged_def)
  ultimately show ?thesis by simp
qed

lemma fromEnv_st_unfold:
  "fromEnv_st schema options w =
     (case collectEnvValues_st
             (case options of None \<Rightarrow> [] | Some given \<Rightarrow>
                (case prefix given of None \<Rightarrow> [] | Some p \<Rightarrow> p))
             (case options of None \<Rightarrow> ''_'' | Some given \<Rightarrow>
                (case separator given of None \<Rightarrow> ''_'' | Some s \<Rightarrow> s)) w of
        (Returns envValues, w1) \<Rightarrow>
          (case parse_st schema envValues w1 of
             (Inl err, w2) \<Rightarrow> (Throws (ValidationError err), w2)
           | (Inr parsed, w2) \<Rightarrow> (Returns parsed, w2))
      | (Throws err, w1) \<Rightarrow> (Throws (NativeError err), w1)
      | (NotModelled, w1) \<Rightarrow> (NotModelled, w1))"
  by (cases options) (simp_all add: fromEnv_st_def)

lemma fromEnv_st_unchanged:
  assumes "\<And>a w1. unchanged w1 (snd (parse_st schema a w1))"
  shows "unchanged w (snd (fromEnv_st schema options w))"
proof -
  define pre where "pre = (case options of None \<Rightarrow> [] | Some given \<Rightarrow>
                (case prefix given of None \<Rightarrow> [] | Some p \<Rightarrow> p))"
  define sep where "sep = (case options of None \<Rightarrow> ''_'' | Some given \<Rightarrow>
                (case separator given of None \<Rightarrow> ''_'' | Some s \<Rightarrow> s))"
  from collectEnvValues_st_sim [of pre sep w] obtain objs out where
    run: "collectEnvValues_st pre sep w = (out, w\<lparr>heap := heap w @ objs\<rparr>)"
    by blast
  have u1: "unchanged w (w\<lparr>heap := heap w @ objs\<rparr>)" by (rule unchanged_append)
  show ?thesis
  proof (cases out)
    case (Returns a)
    obtain res w2 where p: "parse_st schema a (w\<lparr>heap := heap w @ objs\<rparr>) = (res, w2)"
      by (cases "parse_st schema a (w\<lparr>heap := heap w @ objs\<rparr>)")
    have "unchanged (w\<lparr>heap := heap w @ objs\<rparr>) w2"
      using assms [of "w\<lparr>heap := heap w @ objs\<rparr>" a] p by simp
    with u1 have "unchanged w w2" by (rule unchanged_trans)
    with Returns run p show ?thesis
      unfolding fromEnv_st_unfold pre_def [symmetric] sep_def [symmetric]
      by (cases res) simp_all
  next
    case (Throws err)
    with run u1 show ?thesis
      unfolding fromEnv_st_unfold pre_def [symmetric] sep_def [symmetric] by simp
  next
    case NotModelled
    with run u1 show ?thesis
      unfolding fromEnv_st_unfold pre_def [symmetric] sep_def [symmetric] by simp
  qed
qed

section \<open>The claims\<close>

subsection \<open>Collecting the candidate fields\<close>

text \<open>
  C1, as amended. For a non-empty prefix, whenever the collection returns a mapping:
  the prefix has an upper case; the keys of the mapping are exactly the field names,
  other than \<^verbatim>\<open>__proto__\<close>, derived from the entries with a defined value whose
  name starts with the upper-cased prefix, matched case-sensitively, each from the
  remainder of the name after as many characters as the upper-cased prefix has; the
  entries that do not start with it have no effect on the mapping; and for an ASCII
  prefix, the upper-cased prefix has the length of the prefix, and a name that does not
  start with the prefix under a case-insensitive comparison does not start with the
  upper-cased prefix, so it is excluded.
\<close>

theorem collectEnvValues_prefix_match:
  assumes "pre \<noteq> []" and "collectEnvValues pre sep env = Returns m"
  shows "\<exists>prefixUpper. toUpperCase pre = Some prefixUpper \<and>
           fst ` set m =
             {field. \<exists>name v. (name, Some v) \<in> set env \<and> startsWith name prefixUpper \<and>
                       toFieldName (drop (length prefixUpper) name) sep = Returns field \<and>
                       field \<noteq> ''__proto__''} \<and>
           collectEnvValues pre sep
             (filter (\<lambda>(name, v). v \<noteq> None \<and> startsWith name prefixUpper) env) = Returns m \<and>
           (isAscii pre \<longrightarrow>
              length prefixUpper = length pre \<and>
              (\<forall>name. \<not> ciStartsWith name pre \<longrightarrow> \<not> startsWith name prefixUpper))"
proof -
  from assms(2) obtain pu where pu: "toUpperCase pre = Some pu"
    by (cases "toUpperCase pre") (simp_all add: collectEnvValues_def)
  with assms(2) have run: "collectLoop pu sep env [] = Returns m"
    by (simp add: collectEnvValues_def)
  from collectLoop_keys [OF run noProto_Nil] have keys: "fst ` set m =
             {field. \<exists>name v. (name, Some v) \<in> set env \<and> startsWith name pu \<and>
                       toFieldName (drop (length pu) name) sep = Returns field \<and>
                       field \<noteq> ''__proto__''}"
    by simp
  have same: "collectEnvValues pre sep
             (filter (\<lambda>(name, v). v \<noteq> None \<and> startsWith name pu) env) = Returns m"
    using run unfolding collectEnvValues_def pu option.case by (simp only: collectLoop_filter)
  have ascii: "isAscii pre \<longrightarrow>
              length pu = length pre \<and>
              (\<forall>name. \<not> ciStartsWith name pre \<longrightarrow> \<not> startsWith name pu)"
  proof
    assume a: "isAscii pre"
    from toUpperCase_ascii [OF a] pu have "length pu = length pre" by auto
    moreover have "\<forall>name. \<not> ciStartsWith name pre \<longrightarrow> \<not> startsWith name pu"
      using startsWith_upper_ci [OF a pu] by blast
    ultimately show "length pu = length pre \<and>
              (\<forall>name. \<not> ciStartsWith name pre \<longrightarrow> \<not> startsWith name pu)" by (rule conjI)
  qed
  show ?thesis
    by (rule exI [of _ pu]) (rule conjI [OF pu conjI [OF keys conjI [OF same ascii]]])
qed

text \<open>
  The theorem at the prefix \<^verbatim>\<open>app_\<close>: of five variables only \<^verbatim>\<open>APP_HOST\<close> gives
  a key; \<^verbatim>\<open>app_port\<close> starts with the prefix as written, yet not with its upper
  case, and \<^verbatim>\<open>APP___PROTO__\<close> derives \<^verbatim>\<open>__proto__\<close>. With a sharp s the upper-cased
  prefix is one character longer than the prefix: for the prefix U+00DF \<^verbatim>\<open>_\<close> three
  characters are stripped from \<^verbatim>\<open>SS_HOST\<close>.
\<close>

theorem collectEnvValues_prefix_match_witness:
  "''app_'' \<noteq> [] \<and>
   collectEnvValues ''app_'' ''_''
     [(''APP_HOST'', Some ''test''), (''PATH'', Some ''/bin''), (''APP_OFF'', None),
      (''app_port'', Some ''1''), (''APP___PROTO__'', Some ''x'')] =
     Returns [(''host'', Str ''test'')] \<and>
   toUpperCase ''app_'' = Some ''APP_'' \<and>
   fst ` set [(''host'', Str ''test'')] =
     {field. \<exists>name v.
        (name, Some v) \<in> set [(''APP_HOST'', Some ''test''), (''PATH'', Some ''/bin''),
                              (''APP_OFF'', None), (''app_port'', Some ''1''),
                              (''APP___PROTO__'', Some ''x'')] \<and>
        startsWith name ''APP_'' \<and>
        toFieldName (drop (length ''APP_'') name) ''_'' = Returns field \<and>
        field \<noteq> ''__proto__''} \<and>
   collectEnvValues [CHR 0xDF, CHR ''_''] ''_''
     [(''SS_HOST'', Some ''h''), ([CHR 0xDF, CHR ''_'', CHR ''X''], Some ''x'')] =
     Returns [(''host'', Str ''h'')]"
proof -
  let ?env = "[(''APP_HOST'', Some ''test''), (''PATH'', Some ''/bin''), (''APP_OFF'', None),
      (''app_port'', Some ''1''), (''APP___PROTO__'', Some ''x'')]"
  have h1: "''app_'' \<noteq> []" by simp
  have h2: "collectEnvValues ''app_'' ''_'' ?env = Returns [(''host'', Str ''test'')]"
    by (simp add: collectEnvValues_def toFieldName_def assign_def js_eval)
  have up: "toUpperCase ''app_'' = Some ''APP_''" by (simp add: js_eval)
  from collectEnvValues_prefix_match [OF h1 h2] up
  have keys: "fst ` set [(''host'', Str ''test'')] =
     {field. \<exists>name v. (name, Some v) \<in> set ?env \<and> startsWith name ''APP_'' \<and>
        toFieldName (drop (length ''APP_'') name) ''_'' = Returns field \<and>
        field \<noteq> ''__proto__''}"
    by (elim exE conjE) (simp only: option.inject)
  have sharp: "collectEnvValues [CHR 0xDF, CHR ''_''] ''_''
     [(''SS_HOST'', Some ''h''), ([CHR 0xDF, CHR ''_'', CHR ''X''], Some ''x'')] =
     Returns [(''host'', Str ''h'')]"
    by (simp add: collectEnvValues_def toFieldName_def assign_def js_eval)
  show ?thesis
    by (rule conjI [OF h1 conjI [OF h2 conjI [OF up conjI [OF keys sharp]]]])
qed

text \<open>
  C1 as stated fails: the variable \<^verbatim>\<open>app_host\<close> starts with the prefix \<^verbatim>\<open>app_\<close>
  under a case-insensitive comparison (it starts with it literally), and is not
  collected.
\<close>

theorem collectEnvValues_case_counterexample:
  "ciStartsWith ''app_host'' ''app_'' \<and>
   collectEnvValues ''app_'' ''_'' [(''app_host'', Some ''x'')] = Returns []"
  by (simp add: ciStartsWith_def collectEnvValues_def toFieldName_def assign_def js_eval)

subsection \<open>Masking\<close>

text \<open>
  C2, as amended. Masking a string yields the \<^verbatim>\<open><not set>\<close> marker when the string
  is empty, the fixed marker \<^verbatim>\<open>****\<close> when its length is between one and four, and
  otherwise its first two characters, then \<^verbatim>\<open>...\<close>, then its last two characters;
  under a sensitive key the printable view holds that masked string.
\<close>

theorem maskValue_of_string:
  "maskValue (Str v) =
     (if v = [] then ''<not set>''
      else if length v \<le> 4 then ''****''
      else [v ! 0, v ! 1] @ ''...'' @ [v ! (length v - 2), v ! (length v - 1)]) \<and>
   (isSensitive key \<longrightarrow> getPrintableConfig [(key, Str v)] = [(key, Str (maskValue (Str v)))])"
proof (intro conjI impI)
  show "maskValue (Str v) =
     (if v = [] then ''<not set>''
      else if length v \<le> 4 then ''****''
      else [v ! 0, v ! 1] @ ''...'' @ [v ! (length v - 2), v ! (length v - 1)])"
    by (rule maskValue_Str)
  assume s: "isSensitive key"
  then have "key \<noteq> ''__proto__''" using isSensitive_not_proto by blast
  with s show "getPrintableConfig [(key, Str v)] = [(key, Str (maskValue (Str v)))]"
    by (simp add: getPrintableConfig_def assign_def)
qed

text \<open>
  The theorem at the key and value of the repository's test, and at a short value.
\<close>

theorem maskValue_of_string_witness:
  "isSensitive ''api_key'' \<and>
   maskValue (Str ''secret123'') = ''se...23'' \<and>
   getPrintableConfig [(''api_key'', Str ''secret123'')] = [(''api_key'', Str ''se...23'')] \<and>
   maskValue (Str ''abcd'') = ''****''"
proof -
  have s: "isSensitive ''api_key''"
    by (simp add: isSensitive_def SENSITIVE_POSTFIXES_def js_eval)
  have a: "maskValue (Str ''secret123'') = ''se...23''"
    using maskValue_of_string [of "''secret123''" "''api_key''", THEN conjunct1] by simp
  have b: "getPrintableConfig [(''api_key'', Str ''secret123'')] = [(''api_key'', Str ''se...23'')]"
    using maskValue_of_string [of "''secret123''" "''api_key''", THEN conjunct2] s a by simp
  have c: "maskValue (Str ''abcd'') = ''****''"
    using maskValue_of_string [of "''abcd''" "''api_key''", THEN conjunct1] by simp
  show ?thesis by (rule conjI [OF s conjI [OF a conjI [OF b c]]])
qed

text \<open>
  C2 as stated fails at the empty string: its length is at most four, and it is masked
  to \<^verbatim>\<open><not set>\<close>, not to the fixed marker.
\<close>

theorem maskValue_empty_counterexample:
  "length ([] :: string) \<le> 4 \<and> maskValue (Str []) = ''<not set>'' \<and> maskValue (Str []) \<noteq> ''****''"
  by (simp add: maskValue_def)




subsection \<open>Field names and the separator\<close>

text \<open>
  C4. The claim holds for the default separator and fails for a separator with a
  syntax character of the pattern grammar, because the separator is compiled as a
  regular expression. With the separator \<^verbatim>\<open>.\<close> every character of \<^verbatim>\<open>DB.HOST\<close>
  is replaced, where the literal reading gives \<^verbatim>\<open>db_host\<close>; with the separator
  \<^verbatim>\<open>(\<close> the derivation throws, where the literal reading gives \<^verbatim>\<open>db_host\<close>.
\<close>

theorem toFieldName_separator_pattern:
  "toFieldName ''DB.HOST'' ''.'' = Returns ''_______'' \<and>
   toFieldName_spec ''DB.HOST'' ''.'' = ''db_host'' \<and>
   toFieldName ''DB(HOST'' ''('' = Throws SyntaxError \<and>
   toFieldName_spec ''DB(HOST'' ''('' = ''db_host''"
  by (simp add: toFieldName_def toFieldName_spec_def RegExp_new_def parseAtom_def
      syntaxCharacters_def backslash_def unterminatedGroup_def replaceGlobal_def
      isLineTerminator_def replaceLiteral.simps js_eval)

text \<open>
  C5. The collection is not total: with the separator \<^verbatim>\<open>(\<close> and an environment with
  one variable that is collected, it throws a \<^verbatim>\<open>SyntaxError\<close>.
\<close>

theorem collectEnvValues_throws:
  "collectEnvValues [] ''('' [(''HOME'', Some ''/root'')] = Throws SyntaxError"
  by (simp add: collectEnvValues_def toFieldName_def RegExp_new_def parseAtom_def
      syntaxCharacters_def backslash_def unterminatedGroup_def js_eval)

text \<open>
  C6. Schema rejection is not the only failure: with the separator \<^verbatim>\<open>(\<close> the call
  throws a \<^verbatim>\<open>SyntaxError\<close> before the schema is asked, here for a schema that
  accepts every candidate.
\<close>

theorem fromEnv_throws_without_validation:
  "fromEnv \<lparr>parse = (\<lambda>c. Inr c :: unit + jsobject)\<rparr>
     (Some \<lparr>prefix = None, separator = Some ''(''\<rparr>) [(''HOME'', Some ''/root'')] =
     Throws (NativeError SyntaxError)"
  by (simp add: fromEnv_def collectEnvValues_def toFieldName_def RegExp_new_def parseAtom_def
      syntaxCharacters_def backslash_def unterminatedGroup_def js_eval)

subsection \<open>Extras\<close>




subsection \<open>Collisions\<close>




subsection \<open>Frame\<close>

text \<open>
  C9, as amended. On a store, the printable view, the extras and the collection leave
  the environment and every object allocated before the call as it was (the
  configuration object and the schema's shape among them); their result is an address
  allocated by the call, and its content is the pure function of the content of their
  inputs. Loading collects in that way and then is what \<^verbatim>\<open>schema.parse\<close> is on the
  newly allocated candidate: its result and the store it leaves are the schema's, and
  it leaves the environment and the earlier objects as they were whenever the
  schema's \<^verbatim>\<open>parse\<close> does.
\<close>

theorem mapper_frame:
  assumes "cfg < length (heap w)" and "shape_st schema < length (heap w)"
  shows
   "(case getPrintableConfig_st cfg w of
       (result, w') \<Rightarrow>
         unchanged w w' \<and> heap w' ! cfg = heap w ! cfg \<and>
         length (heap w) \<le> result \<and> result < length (heap w') \<and>
         heap w' ! result = getPrintableConfig (heap w ! cfg)) \<and>
    (case getExtraConfigs_st cfg schema w of
       (extras, w') \<Rightarrow>
         unchanged w w' \<and> heap w' ! cfg = heap w ! cfg \<and>
         heap w' ! shape_st schema = heap w ! shape_st schema \<and>
         length (heap w) \<le> extras \<and> extras < length (heap w') \<and>
         heap w' ! extras =
           getExtraConfigs (heap w ! cfg) \<lparr>parse = anyParse, shape = heap w ! shape_st schema\<rparr>) \<and>
    (case collectEnvValues_st pre sep w of
       (outcome, w') \<Rightarrow>
         unchanged w w' \<and>
         (case outcome of
            Returns envValues \<Rightarrow>
              length (heap w) \<le> envValues \<and> envValues < length (heap w') \<and>
              collectEnvValues pre sep (process_env w) = Returns (heap w' ! envValues)
          | Throws err \<Rightarrow> collectEnvValues pre sep (process_env w) = Throws err
          | NotModelled \<Rightarrow> collectEnvValues pre sep (process_env w) = NotModelled)) \<and>
    (case collectEnvValues_st pre sep w of
       (Returns envValues, w1) \<Rightarrow>
         fromEnv_st zschema (Some \<lparr>prefix = Some pre, separator = Some sep\<rparr>) w =
           (case parse_st zschema envValues w1 of
              (Inl err, w2) \<Rightarrow> (Throws (ValidationError err), w2)
            | (Inr parsed, w2) \<Rightarrow> (Returns parsed, w2))
     | (Throws err, w1) \<Rightarrow>
         fromEnv_st zschema (Some \<lparr>prefix = Some pre, separator = Some sep\<rparr>) w =
           (Throws (NativeError err), w1)
     | (NotModelled, w1) \<Rightarrow>
         fromEnv_st zschema (Some \<lparr>prefix = Some pre, separator = Some sep\<rparr>) w =
           (NotModelled, w1)) \<and>
    ((\<forall>candidate w1. unchanged w1 (snd (parse_st zschema candidate w1))) \<longrightarrow>
       unchanged w (snd (fromEnv_st zschema options w)))"
proof (intro conjI impI)
  show "case getPrintableConfig_st cfg w of
       (result, w') \<Rightarrow>
         unchanged w w' \<and> heap w' ! cfg = heap w ! cfg \<and>
         length (heap w) \<le> result \<and> result < length (heap w') \<and>
         heap w' ! result = getPrintableConfig (heap w ! cfg)"
    using assms(1)
    by (simp add: getPrintableConfig_st_eq [OF assms(1)] unchanged_append nth_append)
  show "case getExtraConfigs_st cfg schema w of
       (extras, w') \<Rightarrow>
         unchanged w w' \<and> heap w' ! cfg = heap w ! cfg \<and>
         heap w' ! shape_st schema = heap w ! shape_st schema \<and>
         length (heap w) \<le> extras \<and> extras < length (heap w') \<and>
         heap w' ! extras =
           getExtraConfigs (heap w ! cfg) \<lparr>parse = anyParse, shape = heap w ! shape_st schema\<rparr>"
    using assms
    by (simp add: getExtraConfigs_st_eq [OF assms, where p = anyParse] unchanged_append nth_append)
  from collectEnvValues_st_sim [of pre sep w] obtain objs where
    run: "collectEnvValues_st pre sep w =
      (andThen (collectEnvValues pre sep (process_env w)) (\<lambda>m. Returns (length (heap w))),
       w\<lparr>heap := heap w @ objs\<rparr>)"
    and objs: "\<forall>m. collectEnvValues pre sep (process_env w) = Returns m \<longrightarrow> objs = [m]"
    by blast
  show "case collectEnvValues_st pre sep w of
       (outcome, w') \<Rightarrow>
         unchanged w w' \<and>
         (case outcome of
            Returns envValues \<Rightarrow>
              length (heap w) \<le> envValues \<and> envValues < length (heap w') \<and>
              collectEnvValues pre sep (process_env w) = Returns (heap w' ! envValues)
          | Throws err \<Rightarrow> collectEnvValues pre sep (process_env w) = Throws err
          | NotModelled \<Rightarrow> collectEnvValues pre sep (process_env w) = NotModelled)"
    unfolding run using objs
    by (cases "collectEnvValues pre sep (process_env w)") (simp_all add: unchanged_append)
  show "case collectEnvValues_st pre sep w of
       (Returns envValues, w1) \<Rightarrow>
         fromEnv_st zschema (Some \<lparr>prefix = Some pre, separator = Some sep\<rparr>) w =
           (case parse_st zschema envValues w1 of
              (Inl err, w2) \<Rightarrow> (Throws (ValidationError err), w2)
            | (Inr parsed, w2) \<Rightarrow> (Returns parsed, w2))
     | (Throws err, w1) \<Rightarrow>
         fromEnv_st zschema (Some \<lparr>prefix = Some pre, separator = Some sep\<rparr>) w =
           (Throws (NativeError err), w1)
     | (NotModelled, w1) \<Rightarrow>
         fromEnv_st zschema (Some \<lparr>prefix = Some pre, separator = Some sep\<rparr>) w =
           (NotModelled, w1)"
    by (cases "collectEnvValues pre sep (process_env w)")
       (simp_all add: fromEnv_st_unfold run)
  assume "\<forall>candidate w1. unchanged w1 (snd (parse_st zschema candidate w1))"
  then show "unchanged w (snd (fromEnv_st zschema options w))"
    by (intro fromEnv_st_unchanged) blast
qed

text \<open>
  The theorem at a store with a configuration object and a shape, and a schema whose
  \<^verbatim>\<open>parse\<close> returns a copy of the candidate.
\<close>

theorem mapper_frame_witness:
  "0 < length (heap \<lparr>heap = [[(''host'', Str ''h''), (''api_key'', Str ''secret123'')],
                             [(''host'', Str ''string'')]],
                     process_env = [(''HOST'', Some ''x'')]\<rparr>) \<and>
   getPrintableConfig_st 0
     \<lparr>heap = [[(''host'', Str ''h''), (''api_key'', Str ''secret123'')], [(''host'', Str ''string'')]],
      process_env = [(''HOST'', Some ''x'')]\<rparr> =
     (2, \<lparr>heap = [[(''host'', Str ''h''), (''api_key'', Str ''secret123'')],
                  [(''host'', Str ''string'')],
                  [(''host'', Str ''h''), (''api_key'', Str ''se...23'')]],
          process_env = [(''HOST'', Some ''x'')]\<rparr>) \<and>
   unchanged
     \<lparr>heap = [[(''host'', Str ''h''), (''api_key'', Str ''secret123'')], [(''host'', Str ''string'')]],
      process_env = [(''HOST'', Some ''x'')]\<rparr>
     (snd (getPrintableConfig_st 0
        \<lparr>heap = [[(''host'', Str ''h''), (''api_key'', Str ''secret123'')], [(''host'', Str ''string'')]],
         process_env = [(''HOST'', Some ''x'')]\<rparr>)) \<and>
   getExtraConfigs_st 0
     \<lparr>parse_st = (\<lambda>candidate w. (Inr (length (heap w)) :: unit + nat,
                                   w\<lparr>heap := heap w @ [heap w ! candidate]\<rparr>)),
      shape_st = 1\<rparr>
     \<lparr>heap = [[(''host'', Str ''h''), (''api_key'', Str ''secret123'')], [(''host'', Str ''string'')]],
      process_env = [(''HOST'', Some ''x'')]\<rparr> =
     (2, \<lparr>heap = [[(''host'', Str ''h''), (''api_key'', Str ''secret123'')],
                  [(''host'', Str ''string'')],
                  [(''api_key'', Str ''secret123'')]],
          process_env = [(''HOST'', Some ''x'')]\<rparr>) \<and>
   fromEnv_st
     \<lparr>parse_st = (\<lambda>candidate w. (Inr (length (heap w)) :: unit + nat,
                                   w\<lparr>heap := heap w @ [heap w ! candidate]\<rparr>)),
      shape_st = 1\<rparr> None
     \<lparr>heap = [[(''host'', Str ''h''), (''api_key'', Str ''secret123'')], [(''host'', Str ''string'')]],
      process_env = [(''HOST'', Some ''x'')]\<rparr> =
     (Returns 3,
      \<lparr>heap = [[(''host'', Str ''h''), (''api_key'', Str ''secret123'')],
               [(''host'', Str ''string'')],
               [(''host'', Str ''x'')], [(''host'', Str ''x'')]],
       process_env = [(''HOST'', Some ''x'')]\<rparr>) \<and>
   unchanged
     \<lparr>heap = [[(''host'', Str ''h''), (''api_key'', Str ''secret123'')], [(''host'', Str ''string'')]],
      process_env = [(''HOST'', Some ''x'')]\<rparr>
     (snd (fromEnv_st
        \<lparr>parse_st = (\<lambda>candidate w. (Inr (length (heap w)) :: unit + nat,
                                      w\<lparr>heap := heap w @ [heap w ! candidate]\<rparr>)),
         shape_st = 1\<rparr> None
        \<lparr>heap = [[(''host'', Str ''h''), (''api_key'', Str ''secret123'')], [(''host'', Str ''string'')]],
         process_env = [(''HOST'', Some ''x'')]\<rparr>))"
proof -
  let ?w = "\<lparr>heap = [[(''host'', Str ''h''), (''api_key'', Str ''secret123'')],
                     [(''host'', Str ''string'')]],
             process_env = [(''HOST'', Some ''x'')]\<rparr>"
  let ?schema = "\<lparr>parse_st = (\<lambda>candidate w. (Inr (length (heap w)) :: unit + nat,
                                   w\<lparr>heap := heap w @ [heap w ! candidate]\<rparr>)),
      shape_st = 1\<rparr>"
  have h0: "0 < length (heap ?w)" by simp
  have h1: "shape_st ?schema < length (heap ?w)" by simp
  have pure: "\<forall>candidate w1. unchanged w1 (snd (parse_st ?schema candidate w1))"
    by (simp add: unchanged_def)
  note r = mapper_frame [OF h0 h1, where zschema = ?schema and options = None]
  have p: "getPrintableConfig_st 0 ?w =
     (2, \<lparr>heap = [[(''host'', Str ''h''), (''api_key'', Str ''secret123'')],
                  [(''host'', Str ''string'')],
                  [(''host'', Str ''h''), (''api_key'', Str ''se...23'')]],
          process_env = [(''HOST'', Some ''x'')]\<rparr>)"
    by (simp add: getPrintableConfig_st_def newObject_def entriesOf_def setProperty_def
        assign_def isSensitive_def SENSITIVE_POSTFIXES_def maskValue_def js_eval)
  have up: "unchanged ?w (snd (getPrintableConfig_st 0 ?w))"
    using r [THEN conjunct1] by (simp add: case_prod_beta)
  have x: "getExtraConfigs_st 0 ?schema ?w =
     (2, \<lparr>heap = [[(''host'', Str ''h''), (''api_key'', Str ''secret123'')],
                  [(''host'', Str ''string'')],
                  [(''api_key'', Str ''secret123'')]],
          process_env = [(''HOST'', Some ''x'')]\<rparr>)"
    by (simp add: getExtraConfigs_st_def newObject_def entriesOf_def setProperty_def assign_def)
  have f: "fromEnv_st ?schema None ?w =
     (Returns 3,
      \<lparr>heap = [[(''host'', Str ''h''), (''api_key'', Str ''secret123'')],
               [(''host'', Str ''string'')],
               [(''host'', Str ''x'')], [(''host'', Str ''x'')]],
       process_env = [(''HOST'', Some ''x'')]\<rparr>)"
    by (simp add: fromEnv_st_def collectEnvValues_st_def newObject_def setProperty_def
        toFieldName_def assign_def js_eval)
  have uf: "unchanged ?w (snd (fromEnv_st ?schema None ?w))"
    using r [THEN conjunct2, THEN conjunct2, THEN conjunct2, THEN conjunct2] pure by blast
  show ?thesis
    by (rule conjI [OF h0 conjI [OF p conjI [OF up conjI [OF x conjI [OF f uf]]]]])
qed

text \<open>
  C9 as stated fails for loading: a schema whose \<^verbatim>\<open>parse\<close> returns a shared
  object (a transform that returns a constant) makes the result of loading an object
  that existed before the call, not a newly allocated mapping.
\<close>

theorem fromEnv_st_shared_counterexample:
  "0 < length (heap \<lparr>heap = [[(''host'', Str ''shared'')]],
                     process_env = [(''HOST'', Some ''h'')]\<rparr>) \<and>
   fromEnv_st \<lparr>parse_st = (\<lambda>candidate w. (Inr 0 :: unit + nat, w))\<rparr> None
     \<lparr>heap = [[(''host'', Str ''shared'')]], process_env = [(''HOST'', Some ''h'')]\<rparr> =
     (Returns 0,
      \<lparr>heap = [[(''host'', Str ''shared'')], [(''host'', Str ''h'')]],
       process_env = [(''HOST'', Some ''h'')]\<rparr>)"
  by (simp add: fromEnv_st_def collectEnvValues_st_def newObject_def setProperty_def
      toFieldName_def assign_def js_eval)

subsection \<open>settings-base.ts\<close>

text \<open>
  C10. \<^verbatim>\<open>loadConfig\<close> returns what \<^verbatim>\<open>fromEnv\<close> returns for the same schema and
  options; \<^verbatim>\<open>createSettings\<close> throws what \<^verbatim>\<open>fromEnv\<close> with empty options
  throws, and otherwise returns a record whose \<^verbatim>\<open>config\<close> is the result of
  \<^verbatim>\<open>fromEnv\<close> with empty options, whatever the settings options are, and whose
  \<^verbatim>\<open>envFile\<close> and \<^verbatim>\<open>caseSensitive\<close> are the options given, or \<^verbatim>\<open>.env\<close>
  and \<^verbatim>\<open>false\<close> when absent.
\<close>

theorem loadConfig_createSettings_fromEnv:
  "loadConfig schema options env = fromEnv schema options env \<and>
   andThen (createSettings schema settingsOptions env) (\<lambda>settings. Returns (config settings)) =
     fromEnv schema (Some \<lparr>prefix = None, separator = None\<rparr>) env \<and>
   createSettings schema settingsOptions env =
     andThen (fromEnv schema (Some \<lparr>prefix = None, separator = None\<rparr>) env)
       (\<lambda>parsed. Returns
          \<lparr>config = parsed,
           envFile = (case settingsOptions of
                        None \<Rightarrow> ''.env''
                      | Some given \<Rightarrow> (case envFile_opt given of None \<Rightarrow> ''.env'' | Some f \<Rightarrow> f)),
           caseSensitive = (case settingsOptions of
                        None \<Rightarrow> False
                      | Some given \<Rightarrow> (case caseSensitive_opt given of None \<Rightarrow> False | Some b \<Rightarrow> b))\<rparr>)"
proof (intro conjI)
  show "loadConfig schema options env = fromEnv schema options env"
    by (cases options) (simp_all add: loadConfig_def fromEnv_def)
  have same: "fromEnv schema None env = fromEnv schema (Some \<lparr>prefix = None, separator = None\<rparr>) env"
    by (simp add: fromEnv_def)
  show "andThen (createSettings schema settingsOptions env) (\<lambda>settings. Returns (config settings)) =
     fromEnv schema (Some \<lparr>prefix = None, separator = None\<rparr>) env"
    unfolding createSettings_def same [symmetric]
    by (cases "fromEnv schema None env") (simp_all add: Let_def)
  show "createSettings schema settingsOptions env =
     andThen (fromEnv schema (Some \<lparr>prefix = None, separator = None\<rparr>) env)
       (\<lambda>parsed. Returns
          \<lparr>config = parsed,
           envFile = (case settingsOptions of
                        None \<Rightarrow> ''.env''
                      | Some given \<Rightarrow> (case envFile_opt given of None \<Rightarrow> ''.env'' | Some f \<Rightarrow> f)),
           caseSensitive = (case settingsOptions of
                        None \<Rightarrow> False
                      | Some given \<Rightarrow> (case caseSensitive_opt given of None \<Rightarrow> False | Some b \<Rightarrow> b))\<rparr>)"
    unfolding createSettings_def same [symmetric]
    by (cases settingsOptions) (simp_all add: Let_def)
qed

text \<open>
  The theorem at a schema that accepts every candidate: the prefix is used by
  \<^verbatim>\<open>loadConfig\<close>, and no option reaches the parsed configuration of
  \<^verbatim>\<open>createSettings\<close>.
\<close>

theorem loadConfig_createSettings_fromEnv_witness:
  "loadConfig \<lparr>parse = (\<lambda>c. Inr c :: unit + jsobject)\<rparr>
     (Some \<lparr>prefix = Some ''app_'', separator = None\<rparr>)
     [(''APP_HOST'', Some ''h''), (''PORT'', Some ''80'')] = Returns [(''host'', Str ''h'')] \<and>
   createSettings \<lparr>parse = (\<lambda>c. Inr c :: unit + jsobject)\<rparr>
     (Some \<lparr>envFile_opt = Some ''prod.env'', caseSensitive_opt = Some True\<rparr>)
     [(''APP_HOST'', Some ''h''), (''PORT'', Some ''80'')] =
     Returns \<lparr>config = [(''app_host'', Str ''h''), (''port'', Str ''80'')],
              envFile = ''prod.env'', caseSensitive = True\<rparr>"
proof -
  let ?schema = "\<lparr>parse = (\<lambda>c. Inr c :: unit + jsobject)\<rparr>"
  let ?env = "[(''APP_HOST'', Some ''h''), (''PORT'', Some ''80'')]"
  have a: "fromEnv ?schema (Some \<lparr>prefix = Some ''app_'', separator = None\<rparr>) ?env =
             Returns [(''host'', Str ''h'')]"
    by (simp add: fromEnv_def collectEnvValues_def toFieldName_def assign_def js_eval)
  have b: "fromEnv ?schema (Some \<lparr>prefix = None, separator = None\<rparr>) ?env =
             Returns [(''app_host'', Str ''h''), (''port'', Str ''80'')]"
    by (simp add: fromEnv_def collectEnvValues_def toFieldName_def assign_def js_eval)
  note r = loadConfig_createSettings_fromEnv
    [of ?schema "Some \<lparr>prefix = Some ''app_'', separator = None\<rparr>" ?env
        "Some \<lparr>envFile_opt = Some ''prod.env'', caseSensitive_opt = Some True\<rparr>"]
  have c: "loadConfig ?schema (Some \<lparr>prefix = Some ''app_'', separator = None\<rparr>) ?env =
             Returns [(''host'', Str ''h'')]"
    using r [THEN conjunct1] a by simp
  have d: "createSettings ?schema
     (Some \<lparr>envFile_opt = Some ''prod.env'', caseSensitive_opt = Some True\<rparr>) ?env =
     Returns \<lparr>config = [(''app_host'', Str ''h''), (''port'', Str ''80'')],
              envFile = ''prod.env'', caseSensitive = True\<rparr>"
    using r [THEN conjunct2, THEN conjunct2] b by simp
  show ?thesis by (rule conjI [OF c d])
qed

subsection \<open>Separators without syntax characters\<close>

text \<open>
  What holds of the field-name derivation, the collection and the loading when the
  separator is not empty and has none of the syntax characters of the pattern grammar,
  the default \<^verbatim>\<open>_\<close> included: the pattern is then a sequence of literal characters.
\<close>

lemma literal_underscore: "''_'' \<noteq> [] \<and> set ''_'' \<inter> set syntaxCharacters = {}"
  by (simp add: syntaxCharacters_def backslash_def)

lemma collectEnvValues_literal_returns:
  assumes "sep \<noteq> []" and "set sep \<inter> set syntaxCharacters = {}"
    and "toUpperCase pre = Some prefixUpper"
  shows "\<exists>m. collectEnvValues pre sep env = Returns m"
  unfolding collectEnvValues_def assms(3) option.case
  by (rule collectLoop_returns) (simp add: toFieldName_literal [OF assms(1,2)])

text \<open>
  For such a separator the derivation returns, and its result is the one of the
  specification's wording: every literal occurrence of the separator is replaced by an
  underscore, and the string is lower-cased.
\<close>

theorem toFieldName_literal_separator:
  assumes "sep \<noteq> []" and "set sep \<inter> set syntaxCharacters = {}"
  shows "toFieldName s sep = Returns (toFieldName_spec s sep)"
  using assms by (rule toFieldName_literal)

theorem toFieldName_literal_separator_witness:
  "''__'' \<noteq> [] \<and> set ''__'' \<inter> set syntaxCharacters = {} \<and>
   toFieldName ''DB__HOST_NAME'' ''__'' = Returns ''db_host_name'' \<and>
   toFieldName_spec ''DB__HOST_NAME'' ''__'' = ''db_host_name''"
proof -
  have a: "''__'' \<noteq> []" by simp
  have b: "set ''__'' \<inter> set syntaxCharacters = {}"
    by (simp add: syntaxCharacters_def backslash_def)
  have c: "toFieldName_spec ''DB__HOST_NAME'' ''__'' = ''db_host_name''"
    by (simp add: toFieldName_spec_def replaceLiteral.simps js_eval)
  have d: "toFieldName ''DB__HOST_NAME'' ''__'' = Returns ''db_host_name''"
    using toFieldName_literal_separator [OF a b, of "''DB__HOST_NAME''"] c by simp
  show ?thesis by (rule conjI [OF a conjI [OF b conjI [OF d c]]])
qed

text \<open>
  For such a separator and a prefix that has an upper case, the collection returns a
  mapping, whatever the environment.
\<close>

theorem collectEnvValues_returns:
  assumes "sep \<noteq> []" and "set sep \<inter> set syntaxCharacters = {}"
    and "toUpperCase pre = Some prefixUpper"
  shows "\<exists>m. collectEnvValues pre sep env = Returns m"
  using assms by (rule collectEnvValues_literal_returns)

theorem collectEnvValues_returns_witness:
  "''_'' \<noteq> [] \<and> set ''_'' \<inter> set syntaxCharacters = {} \<and>
   toUpperCase ''app_'' = Some ''APP_'' \<and>
   (\<exists>m. collectEnvValues ''app_'' ''_'' [(''APP_HOST'', Some ''h''), (''PATH'', None)] = Returns m)"
proof -
  note l = literal_underscore
  have up: "toUpperCase ''app_'' = Some ''APP_''" by (simp add: js_eval)
  from collectEnvValues_returns [OF l [THEN conjunct1] l [THEN conjunct2] up]
  have "\<exists>m. collectEnvValues ''app_'' ''_'' [(''APP_HOST'', Some ''h''), (''PATH'', None)] = Returns m" .
  with l up show ?thesis by blast
qed

text \<open>
  For such a separator, the default one included, and a prefix that has an upper case,
  loading fails exactly when the schema rejects the collected mapping, and then with
  the schema's error.
\<close>

theorem fromEnv_fails_by_rejection_only:
  assumes "pre = (case options of None \<Rightarrow> [] | Some given \<Rightarrow>
                    (case prefix given of None \<Rightarrow> [] | Some p \<Rightarrow> p))"
    and "sep = (case options of None \<Rightarrow> ''_'' | Some given \<Rightarrow>
                    (case separator given of None \<Rightarrow> ''_'' | Some s \<Rightarrow> s))"
    and "sep \<noteq> []" and "set sep \<inter> set syntaxCharacters = {}"
    and "toUpperCase pre = Some prefixUpper"
  shows "\<exists>m. collectEnvValues pre sep env = Returns m \<and>
           fromEnv schema options env =
             (case parse schema m of
                Inl err \<Rightarrow> Throws (ValidationError err)
              | Inr parsed \<Rightarrow> Returns parsed)"
proof -
  from collectEnvValues_literal_returns [OF assms(3,4,5)] obtain m where
    m: "collectEnvValues pre sep env = Returns m" by blast
  then have "fromEnv schema options env =
             (case parse schema m of
                Inl err \<Rightarrow> Throws (ValidationError err)
              | Inr parsed \<Rightarrow> Returns parsed)"
    unfolding assms(1,2) by (cases options) (simp_all add: fromEnv_def)
  with m show ?thesis by blast
qed

theorem fromEnv_fails_by_rejection_only_witness:
  "fromEnv \<lparr>parse = (\<lambda>c. if map_of c ''host'' = None then Inl ''host: Required'' else Inr c)\<rparr>
     (Some \<lparr>prefix = Some ''app_'', separator = None\<rparr>) [(''APP_PORT'', Some ''80'')] =
     Throws (ValidationError ''host: Required'') \<and>
   fromEnv \<lparr>parse = (\<lambda>c. if map_of c ''host'' = None then Inl ''host: Required'' else Inr c)\<rparr>
     (Some \<lparr>prefix = Some ''app_'', separator = None\<rparr>) [(''APP_HOST'', Some ''h'')] =
     Returns [(''host'', Str ''h'')]"
proof -
  let ?schema = "\<lparr>parse = (\<lambda>c. if map_of c ''host'' = None then Inl ''host: Required'' else Inr c)\<rparr>"
  let ?options = "Some \<lparr>prefix = Some ''app_'', separator = None\<rparr>"
  note l = literal_underscore
  have p: "''app_'' = (case ?options of None \<Rightarrow> [] | Some given \<Rightarrow>
                    (case prefix given of None \<Rightarrow> [] | Some p \<Rightarrow> p))" by simp
  have s: "''_'' = (case ?options of None \<Rightarrow> ''_'' | Some given \<Rightarrow>
                    (case separator given of None \<Rightarrow> ''_'' | Some s \<Rightarrow> s))" by simp
  have up: "toUpperCase ''app_'' = Some ''APP_''" by (simp add: js_eval)
  note r = fromEnv_fails_by_rejection_only [OF p s l [THEN conjunct1] l [THEN conjunct2] up]
  have c1: "collectEnvValues ''app_'' ''_'' [(''APP_PORT'', Some ''80'')] = Returns [(''port'', Str ''80'')]"
    by (simp add: collectEnvValues_def toFieldName_def assign_def js_eval)
  have c2: "collectEnvValues ''app_'' ''_'' [(''APP_HOST'', Some ''h'')] = Returns [(''host'', Str ''h'')]"
    by (simp add: collectEnvValues_def toFieldName_def assign_def js_eval)
  have a: "fromEnv ?schema ?options [(''APP_PORT'', Some ''80'')] = Throws (ValidationError ''host: Required'')"
    using r [of "[(''APP_PORT'', Some ''80'')]" ?schema] c1 by auto
  have b: "fromEnv ?schema ?options [(''APP_HOST'', Some ''h'')] = Returns [(''host'', Str ''h'')]"
    using r [of "[(''APP_HOST'', Some ''h'')]" ?schema] c2 by auto
  show ?thesis by (rule conjI [OF a b])
qed

end
